theory Spec2Isabelle
  imports Main "HOL-Library.Multiset"
begin

section \<open>The package lock resolver: data model\<close>

text \<open>
  The development embeds \<^verbatim>\<open>internal/controller/pkg/resolver/reconciler.go\<close>.
  One call of \<^verbatim>\<open>Reconciler.Reconcile\<close> is one pass. The pass talks to collaborators
  (the API client, the finalizer, the graph, the tag fetcher) and to libraries (semantic
  versions, image references, sorting); each of them is a field of the record \<open>env\<close>, so a
  theorem about \<open>Reconcile env req\<close> holds for every behaviour of every collaborator. The
  pass returns the list of calls and log lines it made, in order, and how it ended.
  The one-minute timeout of the context is not modelled: a collaborator that runs out of
  time is a collaborator that returns an error. Nor are the values that
  \<^verbatim>\<open>log.WithValues\<close> attaches to the logger.
\<close>

subsection \<open>Errors\<close>

text \<open>
  A Go \<^verbatim>\<open>error\<close> value that is not nil. \<open>NotFound\<close> is the API server's
  answer for an object that does not exist; \<open>Wrapped e msg\<close> is \<^verbatim>\<open>errors.Wrap(e, msg)\<close>
  for a non-nil \<open>e\<close>. A nil error is \<open>None\<close> of \<open>error option\<close>.
\<close>

datatype error = NotFound string | Failure string | Wrapped error string

text \<open>
  \<^verbatim>\<open>kerrors.IsNotFound\<close> looks through the wrappers of an error for the status of
  the API server.
\<close>

fun IsNotFound :: "error \<Rightarrow> bool" where
  "IsNotFound (NotFound _) = True"
| "IsNotFound (Failure _) = False"
| "IsNotFound (Wrapped err _) = IsNotFound err"

text \<open>\<^verbatim>\<open>resource.IgnoreNotFound\<close>: nil for nil and for a not-found error.\<close>

fun IgnoreNotFound :: "error option \<Rightarrow> error option" where
  "IgnoreNotFound None = None"
| "IgnoreNotFound (Some err) = (if IsNotFound err then None else Some err)"

text \<open>\<^verbatim>\<open>errors.Wrap\<close>: wrapping nil gives nil.\<close>

fun Wrap :: "error option \<Rightarrow> string \<Rightarrow> error option" where
  "Wrap None msg = None"
| "Wrap (Some err) msg = Some (Wrapped err msg)"

subsection \<open>Constants of the file\<close>

text \<open>Durations are nanoseconds, as \<^verbatim>\<open>time.Duration\<close> counts them.\<close>

definition Second :: int where
  "Second = 1000000000"

definition shortWait :: int where
  "shortWait = 30 * Second"

definition errGetLock :: string where
  "errGetLock = ''cannot get package lock''"

definition errAddFinalizer :: string where
  "errAddFinalizer = ''cannot add lock finalizer''"

definition errRemoveFinalizer :: string where
  "errRemoveFinalizer = ''cannot remove lock finalizer''"

definition errBuildDAG :: string where
  "errBuildDAG = ''cannot build DAG''"

definition errSortDAG :: string where
  "errSortDAG = ''cannot sort DAG''"

definition errInvalidConstraint :: string where
  "errInvalidConstraint = ''version constraint on dependency is invalid''"

definition errInvalidDependency :: string where
  "errInvalidDependency = ''dependency package is not valid''"

definition errFetchTags :: string where
  "errFetchTags = ''cannot fetch dependency package tags''"

definition errNoValidVersion :: string where
  "errNoValidVersion = ''cannot find a valid version for package constraints''"

definition errInvalidPackageType :: string where
  "errInvalidPackageType = ''cannot create invalid package dependency type''"

definition errCreateDependency :: string where
  "errCreateDependency = ''cannot create dependency package''"

text \<open>
  The three format strings, each applied to its arguments as \<^verbatim>\<open>Sprintf\<close> and
  \<^verbatim>\<open>Errorf\<close> apply them (every verb is \<^verbatim>\<open>%s\<close>).
\<close>

definition errMissingDependencyFmt :: "string \<Rightarrow> string" where
  "errMissingDependencyFmt ident = ''missing package ('' @ ident @ '') is not a dependency''"

definition errNoValidVersionFmt :: "string \<Rightarrow> string \<Rightarrow> string" where
  "errNoValidVersionFmt ident constraints =
     ''dependency ('' @ ident @ '') does not have version in constraints ('' @ constraints @ '')''"

definition packageTagFmt :: "string \<Rightarrow> string \<Rightarrow> string" where
  "packageTagFmt ref ver = ref @ '':'' @ ver"

subsection \<open>The lock and its graph nodes\<close>

text \<open>
  \<^verbatim>\<open>v1beta1.Dependency\<close>, \<^verbatim>\<open>v1beta1.LockPackage\<close> and \<^verbatim>\<open>v1beta1.Lock\<close>.
  A package type is a Go string; the two the pass knows are the constants below.
\<close>

record Dependency =
  Package :: string
  Type :: string
  Constraints :: string

record LockPackage =
  Name :: string
  PackageType :: string
  Source :: string
  Version :: string
  Dependencies :: "Dependency list"

record Lock =
  LockName :: string
  Packages :: "LockPackage list"

definition ConfigurationPackageType :: string where
  "ConfigurationPackageType = ''Configuration''"

definition ProviderPackageType :: string where
  "ProviderPackageType = ''Provider''"

text \<open>
  \<^verbatim>\<open>dag.Node\<close> is an interface; the two types of the repository that implement it are
  the lock package and the dependency.
\<close>

datatype Node = LockPackageNode LockPackage | DependencyNode Dependency

text \<open>
  Modelled from the spec: \<^verbatim>\<open>v1beta1.ToNodes\<close> is not among the source files; it
  turns the lock's packages into graph nodes, one Installed node per lock entry, in order.
\<close>

definition ToNodes :: "LockPackage list \<Rightarrow> Node list" where
  "ToNodes pkgs = map LockPackageNode pkgs"

text \<open>
  The type assertion \<^verbatim>\<open>implied[0].(*v1beta1.Dependency)\<close> in its two-value form: the
  pointer and \<open>ok\<close>. When the node is of another type the pointer is nil (\<open>None\<close>).
\<close>

fun assertDependency :: "Node \<Rightarrow> Dependency option \<times> bool" where
  "assertDependency (DependencyNode d) = (Some d, True)"
| "assertDependency (LockPackageNode p) = (None, False)"

text \<open>
  Modelled from the spec: \<^verbatim>\<open>(*Dependency).Identifier\<close> is not among the source
  files; it returns the identifier of the dependency's target package, a field of the
  struct. Reading a field through a nil pointer is a run-time panic in Go, which is the
  result \<open>None\<close> here.
\<close>

fun Identifier :: "Dependency option \<Rightarrow> string option" where
  "Identifier None = None"
| "Identifier (Some d) = Some (Package d)"

subsection \<open>What a pass creates and returns\<close>

text \<open>\<^verbatim>\<open>v1.Package\<close> is implemented by \<^verbatim>\<open>v1.Configuration\<close> and \<^verbatim>\<open>v1.Provider\<close>.\<close>

datatype PackageKind = Configuration | Provider

record Pack =
  kind :: PackageKind
  packName :: string
  packSource :: string

definition emptyPack :: "PackageKind \<Rightarrow> Pack" where
  "emptyPack k = \<lparr>kind = k, packName = [], packSource = []\<rparr>"

text \<open>\<^verbatim>\<open>reconcile.Result\<close> and the request.\<close>

record Result =
  Requeue :: bool
  RequeueAfter :: int

definition emptyResult :: Result where
  "emptyResult = \<lparr>Requeue = False, RequeueAfter = 0\<rparr>"

definition requeueAfter :: "int \<Rightarrow> Result" where
  "requeueAfter d = \<lparr>Requeue = False, RequeueAfter = d\<rparr>"

type_synonym Request = string

text \<open>A pass either returns a result and an error (nil is \<open>None\<close>) or panics.\<close>

datatype outcome = Panic | Return Result "error option"

text \<open>
  The arguments that follow the message of a log call, \<^verbatim>\<open>keysAndValues\<close>: a key is
  a string, the values that the pass logs are errors.
\<close>

datatype logarg = Key string | Value error

text \<open>
  What a pass does, in order: the calls to its collaborators and the lines it logs. A log
  line is the call of \<^verbatim>\<open>log.Debug\<close>: its message and the arguments passed after it.
\<close>

datatype 'r event =
    Debug string "logarg list"
  | ClientGet Request
  | RemoveFinalizer Lock
  | AddFinalizer Lock
  | NewDag
  | DagInit "Node list"
  | DagSort
  | FetcherTags 'r
  | ClientCreate Pack

subsection \<open>Collaborators and libraries\<close>

text \<open>
  The fields of \<^verbatim>\<open>Reconciler\<close> and the library functions the pass calls. The type
  variables are the graph \<open>'d\<close>, the parsed constraint \<open>'c\<close>, the parsed version \<open>'v\<close> and
  the parsed image reference \<open>'r\<close>. \<open>dagInit\<close> returns the graph it has filled as well.
  Of the logger \<^verbatim>\<open>r.log\<close> one thing matters: what it does with a call whose arguments
  are not pairs of a key and a value. The logger of \<^verbatim>\<open>NewReconciler\<close> ignores it;
  the logger that \<^verbatim>\<open>Setup\<close> is given is built on zap, which in its development
  mode panics on the key that has no value. \<open>oddArgsPanic\<close> says that the logger is
  of the second kind.
\<close>

record ('d, 'c, 'v, 'r) env =
  clientGet :: "Request \<Rightarrow> error + Lock"
  clientCreate :: "Pack \<Rightarrow> error option"
  lockAddFinalizer :: "Lock \<Rightarrow> error option"
  lockRemoveFinalizer :: "Lock \<Rightarrow> error option"
  newDag :: "'d"
  dagInit :: "'d \<Rightarrow> Node list \<Rightarrow> (error + Node list) \<times> 'd"
  dagSort :: "'d \<Rightarrow> error + string list"
  fetcherTags :: "'r \<Rightarrow> error + string list"
  NewConstraint :: "string \<Rightarrow> error + 'c"
  Check :: "'c \<Rightarrow> 'v \<Rightarrow> bool"
  NewVersion :: "string \<Rightarrow> error + 'v"
  Original :: "'v \<Rightarrow> string"
  LessThan :: "'v \<Rightarrow> 'v \<Rightarrow> bool"
  sortCollection :: "'v list \<Rightarrow> 'v list"
  ParseReference :: "string \<Rightarrow> error + 'r"
  refString :: "'r \<Rightarrow> string"
  RepositoryStr :: "'r \<Rightarrow> string"
  ToDNSLabel :: "string \<Rightarrow> string"
  oddArgsPanic :: bool

section \<open>The pass\<close>

subsection \<open>Logging\<close>

text \<open>
  A call \<^verbatim>\<open>log.Debug(msg, keysAndValues...)\<close> made after the events \<open>evs\<close> and
  followed by \<^verbatim>\<open>return\<close> of \<open>out\<close>. The call panics when the number of
  arguments after the message is odd and the logger panics on that; otherwise the line is
  logged and the pass returns.
\<close>

definition logDebug ::
  "('d, 'c, 'v, 'r) env \<Rightarrow> 'r event list \<Rightarrow> string \<Rightarrow> logarg list \<Rightarrow> outcome \<Rightarrow>
   'r event list \<times> outcome" where
  "logDebug env evs msg keysAndValues out =
     (if oddArgsPanic env \<and> odd (length keysAndValues) then (evs, Panic)
      else (evs @ [Debug msg keysAndValues], out))"

subsection \<open>Version selection (lines 245 to 261)\<close>

text \<open>
  The first loop: every tag is parsed, a tag that does not parse is skipped, a parsed
  version is appended to \<open>vs\<close>.
\<close>

fun parseTags :: "('d, 'c, 'v, 'r) env \<Rightarrow> 'v list \<Rightarrow> string list \<Rightarrow> 'v list" where
  "parseTags env vs [] = vs"
| "parseTags env vs (r # tags) =
     (case NewVersion env r of
        Inl err \<Rightarrow> parseTags env vs tags
      | Inr v \<Rightarrow> parseTags env (vs @ [v]) tags)"

text \<open>
  The second loop: every version that passes the check overwrites \<open>addVer\<close> with its
  original string.
\<close>

fun selectVersion :: "('d, 'c, 'v, 'r) env \<Rightarrow> 'c \<Rightarrow> string \<Rightarrow> 'v list \<Rightarrow> string" where
  "selectVersion env c addVer [] = addVer"
| "selectVersion env c addVer (v # vs) =
     (if Check env c v then selectVersion env c (Original env v) vs
      else selectVersion env c addVer vs)"

text \<open>Lines 245 to 261: parse, sort, select.\<close>

definition resolveVersion :: "('d, 'c, 'v, 'r) env \<Rightarrow> 'c \<Rightarrow> string list \<Rightarrow> string" where
  "resolveVersion env c tags =
     (let vs = parseTags env [] tags;
          vs = sortCollection env vs
      in selectVersion env c [] vs)"

subsection \<open>From the constraint to the creation (lines 225 to 295)\<close>

text \<open>The switch on the dependency's type; \<open>None\<close> is its default branch.\<close>

definition newPack :: "string \<Rightarrow> Pack option" where
  "newPack t =
     (if t = ConfigurationPackageType then Some (emptyPack Configuration)
      else if t = ProviderPackageType then Some (emptyPack Provider)
      else None)"

definition reconcileDependency ::
  "('d, 'c, 'v, 'r) env \<Rightarrow> Dependency \<Rightarrow> 'r event list \<times> outcome" where
  "reconcileDependency env dep =
     (case NewConstraint env (Constraints dep) of
        Inl err \<Rightarrow>
          logDebug env [] errInvalidConstraint [Key ''error'', Value err]
            (Return emptyResult None)
      | Inr c \<Rightarrow>
     (case ParseReference env (Package dep) of
        Inl err \<Rightarrow>
          logDebug env [] errInvalidDependency [Key ''error'', Value err]
            (Return emptyResult None)
      | Inr ref \<Rightarrow>
     (case fetcherTags env ref of
        Inl err \<Rightarrow>
          logDebug env [FetcherTags ref] errFetchTags [Key ''error'', Value err]
            (Return (requeueAfter shortWait) None)
      | Inr tags \<Rightarrow>
     (let addVer = resolveVersion env c tags in
      if addVer = [] then
        (case Identifier (Some dep) of
           None \<Rightarrow> ([FetcherTags ref], Panic)
         | Some ident \<Rightarrow>
             logDebug env [FetcherTags ref] errNoValidVersion
               [Value (Failure (errNoValidVersionFmt ident (Constraints dep)))]
               (Return emptyResult None))
      else
     (case newPack (Type dep) of
        None \<Rightarrow> logDebug env [FetcherTags ref] errInvalidPackageType [] (Return emptyResult None)
      | Some pack0 \<Rightarrow>
     (let pack = pack0\<lparr>packName := ToDNSLabel env (RepositoryStr env ref)\<rparr>;
          pack = pack\<lparr>packSource := packageTagFmt (refString env ref) addVer\<rparr>
      in case clientCreate env pack of
           Some err \<Rightarrow>
             logDebug env [FetcherTags ref, ClientCreate pack] errCreateDependency
               [Key ''error'', Value err] (Return (requeueAfter shortWait) None)
         | None \<Rightarrow> ([FetcherTags ref, ClientCreate pack], Return emptyResult None)))))))"

subsection \<open>The graph (lines 199 to 224)\<close>

definition prepend :: "'e list \<Rightarrow> 'e list \<times> outcome \<Rightarrow> 'e list \<times> outcome" where
  "prepend evs r = (evs @ fst r, snd r)"

definition reconcileGraph ::
  "('d, 'c, 'v, 'r) env \<Rightarrow> Lock \<Rightarrow> 'r event list \<times> outcome" where
  "reconcileGraph env lock =
     (let nodes = ToNodes (Packages lock) in
      case dagInit env (newDag env) nodes of
        (Inl err, dag) \<Rightarrow>
          ([NewDag, DagInit nodes], Return emptyResult (Wrap (Some err) errBuildDAG))
      | (Inr implied, dag) \<Rightarrow>
     (case dagSort env dag of
        Inl err \<Rightarrow>
          ([NewDag, DagInit nodes, DagSort], Return emptyResult (Wrap (Some err) errSortDAG))
      | Inr sortedNodes \<Rightarrow>
     (if length implied = 0 then ([NewDag, DagInit nodes, DagSort], Return emptyResult None)
      else
     (case assertDependency (implied ! 0) of
        (dep, ok) \<Rightarrow>
     (if \<not> ok then
        (case Identifier dep of
           None \<Rightarrow> ([NewDag, DagInit nodes, DagSort], Panic)
         | Some ident \<Rightarrow>
             logDebug env [NewDag, DagInit nodes, DagSort] errInvalidDependency
               [Key ''error'', Value (Failure (errMissingDependencyFmt ident))]
               (Return emptyResult None))
      else
     (case dep of
        None \<Rightarrow> ([NewDag, DagInit nodes, DagSort], Panic)
      | Some d \<Rightarrow> prepend [NewDag, DagInit nodes, DagSort] (reconcileDependency env d)))))))"

subsection \<open>The lock and its finalizer (lines 161 to 197)\<close>

definition Reconcile ::
  "('d, 'c, 'v, 'r) env \<Rightarrow> Request \<Rightarrow> 'r event list \<times> outcome" where
  "Reconcile env req =
     (case clientGet env req of
        Inl err \<Rightarrow>
          logDebug env [Debug ''Reconciling'' [], ClientGet req] errGetLock
            [Key ''error'', Value err]
            (Return emptyResult (Wrap (IgnoreNotFound (Some err)) errGetLock))
      | Inr lock \<Rightarrow>
     (if length (Packages lock) = 0 then
        (case lockRemoveFinalizer env lock of
           Some err \<Rightarrow>
             logDebug env [Debug ''Reconciling'' [], ClientGet req, RemoveFinalizer lock]
               errRemoveFinalizer [Key ''error'', Value err]
               (Return (requeueAfter shortWait) None)
         | None \<Rightarrow>
             ([Debug ''Reconciling'' [], ClientGet req, RemoveFinalizer lock],
              Return emptyResult None))
      else
     (case lockAddFinalizer env lock of
        Some err \<Rightarrow>
          logDebug env [Debug ''Reconciling'' [], ClientGet req, AddFinalizer lock]
            errAddFinalizer [Key ''error'', Value err]
            (Return (requeueAfter shortWait) None)
      | None \<Rightarrow>
          prepend [Debug ''Reconciling'' [], ClientGet req, AddFinalizer lock]
            (reconcileGraph env lock))))"

section \<open>What a trace contains\<close>

fun creations :: "'r event list \<Rightarrow> Pack list" where
  "creations [] = []"
| "creations (ClientCreate p # evs) = p # creations evs"
| "creations (_ # evs) = creations evs"

fun fetches :: "'r event list \<Rightarrow> 'r list" where
  "fetches [] = []"
| "fetches (FetcherTags r # evs) = r # fetches evs"
| "fetches (_ # evs) = fetches evs"

fun isGraphCall :: "'r event \<Rightarrow> bool" where
  "isGraphCall NewDag = True"
| "isGraphCall (DagInit _) = True"
| "isGraphCall DagSort = True"
| "isGraphCall _ = False"

fun debugLines :: "'r event list \<Rightarrow> (string \<times> logarg list) list" where
  "debugLines [] = []"
| "debugLines (Debug msg vals # evs) = (msg, vals) # debugLines evs"
| "debugLines (_ # evs) = debugLines evs"

text \<open>
  The pass gets the lock \<open>lock\<close>, finds packages in it, adds the finalizer, builds the
  graph with the implied nodes \<open>implied\<close> and sorts it without an error: it arrives at
  line 212.
\<close>

definition reachesImplied ::
  "('d, 'c, 'v, 'r) env \<Rightarrow> Request \<Rightarrow> Lock \<Rightarrow> Node list \<Rightarrow> bool" where
  "reachesImplied env req lock implied \<longleftrightarrow>
     clientGet env req = Inr lock \<and> Packages lock \<noteq> [] \<and>
     lockAddFinalizer env lock = None \<and>
     fst (dagInit env (newDag env) (ToNodes (Packages lock))) = Inr implied \<and>
     \<not> isl (dagSort env (snd (dagInit env (newDag env) (ToNodes (Packages lock)))))"

text \<open>The calls and the log line of a pass up to line 212.\<close>

definition graphPrefix :: "Request \<Rightarrow> Lock \<Rightarrow> 'r event list" where
  "graphPrefix req lock =
     [Debug ''Reconciling'' [], ClientGet req, AddFinalizer lock,
      NewDag, DagInit (ToNodes (Packages lock)), DagSort]"

section \<open>An environment for the examples\<close>

text \<open>
  The semantic version library (\<^verbatim>\<open>github.com/Masterminds/semver\<close>) is not part of
  the repository. The examples of the specification need only a fragment of it, written
  here: a version is \<^verbatim>\<open>MAJOR.MINOR.PATCH\<close> with an optional leading \<^verbatim>\<open>v\<close>,
  a constraint is a list of comparisons separated by commas, all of which must hold. No
  theorem below depends on this fragment except through the examples.
\<close>

datatype Version = Version nat nat nat string

datatype Operator = OpGE | OpLE | OpNE | OpGT | OpLT | OpEQ

definition isDigit :: "char \<Rightarrow> bool" where
  "isDigit ch \<longleftrightarrow> 48 \<le> (of_char ch :: nat) \<and> (of_char ch :: nat) \<le> 57"

fun digitsValue :: "nat \<Rightarrow> string \<Rightarrow> nat option" where
  "digitsValue acc [] = Some acc"
| "digitsValue acc (ch # cs) =
     (if isDigit ch then digitsValue (acc * 10 + (of_char ch - 48)) cs else None)"

definition parseUint :: "string \<Rightarrow> nat option" where
  "parseUint s = (if s = [] then None else digitsValue 0 s)"

fun splitOn :: "char \<Rightarrow> string \<Rightarrow> string list" where
  "splitOn sep [] = [[]]"
| "splitOn sep (ch # cs) =
     (if ch = sep then [] # splitOn sep cs
      else (case splitOn sep cs of
              [] \<Rightarrow> [[ch]]
            | w # ws \<Rightarrow> (ch # w) # ws))"

definition exampleNewVersion :: "string \<Rightarrow> error + Version" where
  "exampleNewVersion s =
     (let body = (case s of [] \<Rightarrow> [] | ch # cs \<Rightarrow> if ch = CHR ''v'' then cs else s)
      in case map parseUint (splitOn (CHR ''.'') body) of
           [Some a, Some b, Some c] \<Rightarrow> Inr (Version a b c s)
         | _ \<Rightarrow> Inl (Failure ''Invalid Semantic Version''))"

fun exampleOriginal :: "Version \<Rightarrow> string" where
  "exampleOriginal (Version a b c s) = s"

fun exampleLessThan :: "Version \<Rightarrow> Version \<Rightarrow> bool" where
  "exampleLessThan (Version a b c s) (Version a' b' c' s') \<longleftrightarrow>
     a < a' \<or> (a = a' \<and> (b < b' \<or> (b = b' \<and> c < c')))"

fun insertVersion :: "Version \<Rightarrow> Version list \<Rightarrow> Version list" where
  "insertVersion v [] = [v]"
| "insertVersion v (w # ws) =
     (if exampleLessThan v w then v # w # ws else w # insertVersion v ws)"

definition exampleSort :: "Version list \<Rightarrow> Version list" where
  "exampleSort vs = foldr insertVersion vs []"

fun dropSpaces :: "string \<Rightarrow> string" where
  "dropSpaces [] = []"
| "dropSpaces (ch # cs) = (if ch = CHR '' '' then dropSpaces cs else ch # cs)"

fun splitOperator :: "string \<Rightarrow> Operator \<times> string" where
  "splitOperator (a # b # cs) =
     (if a = CHR ''>'' \<and> b = CHR ''='' then (OpGE, cs)
      else if a = CHR ''<'' \<and> b = CHR ''='' then (OpLE, cs)
      else if a = CHR ''!'' \<and> b = CHR ''='' then (OpNE, cs)
      else if a = CHR ''>'' then (OpGT, b # cs)
      else if a = CHR ''<'' then (OpLT, b # cs)
      else if a = CHR ''='' then (OpEQ, b # cs)
      else (OpEQ, a # b # cs))"
| "splitOperator cs = (OpEQ, cs)"

fun parseComparisons :: "string list \<Rightarrow> error + (Operator \<times> Version) list" where
  "parseComparisons [] = Inr []"
| "parseComparisons (p # ps) =
     (case splitOperator (dropSpaces p) of
        (oper, rest) \<Rightarrow>
          (case exampleNewVersion (dropSpaces rest) of
             Inl err \<Rightarrow> Inl (Failure ''improper constraint'')
           | Inr v \<Rightarrow>
               (case parseComparisons ps of
                  Inl err \<Rightarrow> Inl err
                | Inr cmps \<Rightarrow> Inr ((oper, v) # cmps))))"

definition exampleNewConstraint :: "string \<Rightarrow> error + (Operator \<times> Version) list" where
  "exampleNewConstraint s = parseComparisons (splitOn (CHR '','') s)"

fun holds :: "Version \<Rightarrow> Operator \<times> Version \<Rightarrow> bool" where
  "holds v (OpGE, w) \<longleftrightarrow> \<not> exampleLessThan v w"
| "holds v (OpLE, w) \<longleftrightarrow> \<not> exampleLessThan w v"
| "holds v (OpNE, w) \<longleftrightarrow> exampleLessThan v w \<or> exampleLessThan w v"
| "holds v (OpGT, w) \<longleftrightarrow> exampleLessThan w v"
| "holds v (OpLT, w) \<longleftrightarrow> exampleLessThan v w"
| "holds v (OpEQ, w) \<longleftrightarrow> \<not> exampleLessThan v w \<and> \<not> exampleLessThan w v"

definition exampleCheck :: "(Operator \<times> Version) list \<Rightarrow> Version \<Rightarrow> bool" where
  "exampleCheck c v = list_all (holds v) c"

text \<open>
  The other collaborators of the examples, in the manner of the fakes of a unit test. An
  image reference is its string and parses when it is not empty; the graph is the list of
  its nodes, its implied nodes are the dependencies that no lock package is named after,
  and its sort succeeds; the client and the finalizer succeed; the logger ignores a
  key without a value. The lock and the answer of
  the registry are the two arguments.
\<close>

definition exampleImplied :: "LockPackage list \<Rightarrow> Node list" where
  "exampleImplied pkgs =
     map DependencyNode
       (filter (\<lambda>d. Package d \<notin> set (map Source pkgs)) (concat (map Dependencies pkgs)))"

fun nodePackages :: "Node list \<Rightarrow> LockPackage list" where
  "nodePackages [] = []"
| "nodePackages (LockPackageNode p # ns) = p # nodePackages ns"
| "nodePackages (DependencyNode d # ns) = nodePackages ns"

definition exampleEnv ::
  "Lock \<Rightarrow> error + string list \<Rightarrow> (Node list, (Operator \<times> Version) list, Version, string) env"
  where
  "exampleEnv lock registry =
     \<lparr>clientGet = (\<lambda>req. if req = LockName lock then Inr lock else Inl (NotFound req)),
      clientCreate = (\<lambda>p. None),
      lockAddFinalizer = (\<lambda>l. None),
      lockRemoveFinalizer = (\<lambda>l. None),
      newDag = [],
      dagInit = (\<lambda>d nodes. (Inr (exampleImplied (nodePackages nodes)), nodes)),
      dagSort = (\<lambda>d. Inr (map Source (nodePackages d))),
      fetcherTags = (\<lambda>r. registry),
      NewConstraint = exampleNewConstraint,
      Check = exampleCheck,
      NewVersion = exampleNewVersion,
      Original = exampleOriginal,
      LessThan = exampleLessThan,
      sortCollection = exampleSort,
      ParseReference = (\<lambda>s. if s = [] then Inl (Failure ''could not parse reference'') else Inr s),
      refString = (\<lambda>r. r),
      RepositoryStr = (\<lambda>r. r),
      ToDNSLabel = map (\<lambda>ch. if ch = CHR ''/'' \<or> ch = CHR ''.'' then CHR ''-'' else ch),
      oddArgsPanic = False\<rparr>"

text \<open>A lock with one installed provider that declares the dependencies \<open>deps\<close>.\<close>

definition exampleLock :: "Dependency list \<Rightarrow> Lock" where
  "exampleLock deps =
     \<lparr>LockName = ''lock'',
      Packages = [\<lparr>Name = ''provider-a-1234'', PackageType = ProviderPackageType,
                   Source = ''registry.io/org/provider-a'', Version = ''v0.1.0'',
                   Dependencies = deps\<rparr>]\<rparr>"

definition exampleDependency :: "string \<Rightarrow> string \<Rightarrow> Dependency" where
  "exampleDependency t c = \<lparr>Package = ''registry.io/org/config-b'', Type = t, Constraints = c\<rparr>"

text \<open>The tags and the lock of the specification's example of version selection.\<close>

definition selectionTags :: "string list" where
  "selectionTags = [''0.9.0'', ''1.0.0'', ''1.5.2'', ''2.0.0'', ''not-a-version'']"

definition selectionLock :: Lock where
  "selectionLock = exampleLock [exampleDependency ProviderPackageType ''>=1.0.0,<2.0.0'']"

definition selectionEnv ::
  "(Node list, (Operator \<times> Version) list, Version, string) env" where
  "selectionEnv = exampleEnv selectionLock (Inr selectionTags)"

text \<open>The same lock when the registry does not answer.\<close>

definition fetchFailureEnv ::
  "(Node list, (Operator \<times> Version) list, Version, string) env" where
  "fetchFailureEnv = exampleEnv selectionLock (Inl (Failure ''registry timeout''))"

text \<open>The same lock with a graph whose sort reports a cycle.\<close>

definition cyclicEnv :: "(Node list, (Operator \<times> Version) list, Version, string) env" where
  "cyclicEnv = selectionEnv\<lparr>dagSort := (\<lambda>d. Inl (Failure ''detected cyclic dependency''))\<rparr>"

text \<open>
  The same lock with a graph whose \<^verbatim>\<open>Init\<close> returns the lock's own nodes as implied
  nodes: the first implied node is a lock package, not a dependency.
\<close>

definition otherNodeEnv ::
  "(Node list, (Operator \<times> Version) list, Version, string) env" where
  "otherNodeEnv = selectionEnv\<lparr>dagInit := (\<lambda>d nodes. (Inr nodes, nodes))\<rparr>"

text \<open>A lock whose package declares two dependencies, neither of them installed.\<close>

definition secondDependency :: Dependency where
  "secondDependency =
     \<lparr>Package = ''registry.io/org/config-c'', Type = ConfigurationPackageType,
      Constraints = ''>=0.1.0''\<rparr>"

definition twoImpliedLock :: Lock where
  "twoImpliedLock =
     exampleLock [exampleDependency ProviderPackageType ''>=1.0.0,<2.0.0'', secondDependency]"

definition twoImpliedEnv :: "(Node list, (Operator \<times> Version) list, Version, string) env" where
  "twoImpliedEnv = exampleEnv twoImpliedLock (Inr selectionTags)"

text \<open>The specification's example of a constraint that no tag satisfies.\<close>

definition unsatisfiableLock :: Lock where
  "unsatisfiableLock = exampleLock [exampleDependency ProviderPackageType ''>=3.0.0'']"

definition unsatisfiableEnv :: "(Node list, (Operator \<times> Version) list, Version, string) env" where
  "unsatisfiableEnv = exampleEnv unsatisfiableLock (Inr [''1.0.0'', ''2.0.0''])"

text \<open>A lock without packages, and a finalizer that cannot be removed.\<close>

definition emptyLock :: Lock where
  "emptyLock = \<lparr>LockName = ''lock'', Packages = []\<rparr>"

definition emptyLockEnv :: "(Node list, (Operator \<times> Version) list, Version, string) env" where
  "emptyLockEnv =
     (exampleEnv emptyLock (Inr []))\<lparr>lockRemoveFinalizer := (\<lambda>l. Some (Failure ''conflict''))\<rparr>"

text \<open>A registry whose only tag is written with a leading v.\<close>

definition prefixedTagLock :: Lock where
  "prefixedTagLock = exampleLock [exampleDependency ConfigurationPackageType ''>=1.0.0'']"

definition prefixedTagEnv :: "(Node list, (Operator \<times> Version) list, Version, string) env" where
  "prefixedTagEnv = exampleEnv prefixedTagLock (Inr [''v1.2.0''])"

text \<open>A dependency of a type that is neither Configuration nor Provider, with a registry that answers and with one that does not.\<close>

definition invalidKindLock :: Lock where
  "invalidKindLock = exampleLock [exampleDependency ''Function'' ''>=1.0.0,<2.0.0'']"

definition invalidKindEnv :: "(Node list, (Operator \<times> Version) list, Version, string) env" where
  "invalidKindEnv = exampleEnv invalidKindLock (Inr selectionTags)"

definition invalidKindFetchFailureEnv ::
  "(Node list, (Operator \<times> Version) list, Version, string) env" where
  "invalidKindFetchFailureEnv = exampleEnv invalidKindLock (Inl (Failure ''registry timeout''))"

text \<open>A dependency whose package string is not an image reference.\<close>

definition noReferenceDependency :: Dependency where
  "noReferenceDependency = \<lparr>Package = [], Type = ProviderPackageType, Constraints = ''>=1.0.0''\<rparr>"

definition noReferenceLock :: Lock where
  "noReferenceLock = exampleLock [noReferenceDependency]"

definition noReferenceEnv :: "(Node list, (Operator \<times> Version) list, Version, string) env" where
  "noReferenceEnv = exampleEnv noReferenceLock (Inr selectionTags)"

text \<open>
  The lock of the unsatisfiable constraint with a logger that panics on a key without a
  value.
\<close>

definition developmentLoggerEnv ::
  "(Node list, (Operator \<times> Version) list, Version, string) env" where
  "developmentLoggerEnv = unsatisfiableEnv\<lparr>oddArgsPanic := True\<rparr>"

text \<open>An API server that cannot be reached.\<close>

definition getFailureEnv ::
  "(Node list, (Operator \<times> Version) list, Version, string) env" where
  "getFailureEnv = selectionEnv\<lparr>clientGet := (\<lambda>req. Inl (Failure ''connection refused''))\<rparr>"

text \<open>A dependency of which neither the constraint nor the package string parses.\<close>

definition unparseableDependency :: Dependency where
  "unparseableDependency = \<lparr>Package = [], Type = ProviderPackageType, Constraints = ''latest''\<rparr>"

definition unparseableLock :: Lock where
  "unparseableLock = exampleLock [unparseableDependency]"

definition unparseableEnv ::
  "(Node list, (Operator \<times> Version) list, Version, string) env" where
  "unparseableEnv = exampleEnv unparseableLock (Inr selectionTags)"

section \<open>Lemmas about the pass\<close>

text \<open>
  A log call with no argument or with one key and one value logs its line; a call with a
  lone value does so when the logger allows it.
\<close>

lemma logDebug_pairs [simp]:
  "logDebug env evs msg [] out = (evs @ [Debug msg []], out)"
  "logDebug env evs msg [k, v] out = (evs @ [Debug msg [k, v]], out)"
  by (simp_all add: logDebug_def)

lemma logDebug_lone [simp]:
  "logDebug env evs msg [v] out =
     (if oddArgsPanic env then (evs, Panic) else (evs @ [Debug msg [v]], out))"
  by (simp add: logDebug_def)

text \<open>The first loop keeps the versions of the tags that parse, in the order of the tags.\<close>

definition parsedVersion :: "('d, 'c, 'v, 'r) env \<Rightarrow> string \<Rightarrow> 'v option" where
  "parsedVersion env t = (case NewVersion env t of Inl err \<Rightarrow> None | Inr v \<Rightarrow> Some v)"

lemma parseTags_acc: "parseTags env vs tags = vs @ List.map_filter (parsedVersion env) tags"
  by (induction tags arbitrary: vs)
    (auto simp: parsedVersion_def List.map_filter_simps split: sum.splits)

lemma set_parseTags_acc:
  "set (parseTags env vs tags) = set vs \<union> {v. \<exists>t \<in> set tags. NewVersion env t = Inr v}"
  by (induction tags arbitrary: vs) (auto split: sum.splits)

lemma set_parseTags:
  "set (parseTags env [] tags) = {v. \<exists>t \<in> set tags. NewVersion env t = Inr v}"
  by (simp add: set_parseTags_acc)

text \<open>The second loop ends with the original string of the last version that passes.\<close>

lemma selectVersion_last:
  "selectVersion env c addVer vs =
     (if filter (Check env c) vs = [] then addVer
      else Original env (last (filter (Check env c) vs)))"
  by (induction vs arbitrary: addVer) auto

text \<open>In a list in ascending order no element that passes is above the last one that does.\<close>

lemma last_match_highest:
  assumes srt: "sorted_wrt (\<lambda>a b. \<not> lt b a) ys"
      and irr: "\<And>v. \<not> lt v v"
      and ne: "filter P ys \<noteq> []"
      and w: "w \<in> set ys" "P w"
    shows "\<not> lt (last (filter P ys)) w"
  using srt ne w
proof (induction ys)
  case Nil
  then show ?case by simp
next
  case (Cons y ys)
  show ?case
  proof (cases "filter P ys = []")
    case True
    with Cons.prems have "w = y" by (auto simp: filter_empty_conv)
    with True Cons.prems irr[of y] show ?thesis by (auto split: if_splits)
  next
    case False
    then have l: "last (filter P (y # ys)) = last (filter P ys)" by simp
    have m: "last (filter P ys) \<in> set ys"
      using False last_in_set[of "filter P ys"] by auto
    show ?thesis
    proof (cases "w \<in> set ys")
      case True
      with Cons False show ?thesis unfolding l by simp
    next
      case False
      with Cons.prems have "w = y" by simp
      with Cons.prems(1) m show ?thesis unfolding l by auto
    qed
  qed
qed

text \<open>A pass that arrives at line 212 with a first implied node goes on with that node.\<close>

lemma Reconcile_reaches:
  assumes "reachesImplied env req lock (DependencyNode d # rest)"
  shows "Reconcile env req =
           (graphPrefix req lock @ fst (reconcileDependency env d),
            snd (reconcileDependency env d))"
  using assms
  by (auto simp: reachesImplied_def Reconcile_def reconcileGraph_def prepend_def graphPrefix_def
      Let_def isl_def split: prod.splits sum.splits option.splits)

lemma Reconcile_reaches_other:
  assumes "reachesImplied env req lock (LockPackageNode p # rest)"
  shows "Reconcile env req = (graphPrefix req lock, Panic)"
  using assms
  by (auto simp: reachesImplied_def Reconcile_def reconcileGraph_def prepend_def graphPrefix_def
      Let_def isl_def split: prod.splits sum.splits option.splits)

lemma creations_append: "creations (xs @ ys) = creations xs @ creations ys"
  by (induction xs rule: creations.induct) auto

lemma fetches_append: "fetches (xs @ ys) = fetches xs @ fetches ys"
  by (induction xs rule: fetches.induct) auto

lemma debugLines_append: "debugLines (xs @ ys) = debugLines xs @ debugLines ys"
  by (induction xs rule: debugLines.induct) auto

lemma graphPrefix_quiet:
  "creations (graphPrefix req lock) = []" "fetches (graphPrefix req lock) = []"
  by (simp_all add: graphPrefix_def)

text \<open>From line 225 on: at most one fetch, at most one creation, nil error.\<close>

lemma reconcileDependency_creations:
  "length (creations (fst (reconcileDependency env d))) \<le> 1"
  by (auto simp: reconcileDependency_def Let_def split: sum.splits option.splits)

lemma reconcileDependency_fetches:
  "length (fetches (fst (reconcileDependency env d))) \<le> 1"
  by (auto simp: reconcileDependency_def Let_def split: sum.splits option.splits)

lemma reconcileDependency_returns:
  "snd (reconcileDependency env d) = Return emptyResult None \<or>
   snd (reconcileDependency env d) = Return (requeueAfter shortWait) None \<or>
   snd (reconcileDependency env d) = Panic"
  by (auto simp: reconcileDependency_def Let_def split: sum.splits option.splits)

text \<open>What a created package is made of.\<close>

lemma created_pack:
  assumes "p \<in> set (creations (fst (reconcileDependency env d)))"
  shows "case ParseReference env (Package d) of
           Inl err \<Rightarrow> False
         | Inr ref \<Rightarrow>
             fetches (fst (reconcileDependency env d)) = [ref] \<and>
             packName p = ToDNSLabel env (RepositoryStr env ref) \<and>
             newPack (Type d) = Some (emptyPack (kind p)) \<and>
             (case NewConstraint env (Constraints d) of
                Inl err \<Rightarrow> False
              | Inr c \<Rightarrow>
                  (case fetcherTags env ref of
                     Inl err \<Rightarrow> False
                   | Inr tags \<Rightarrow>
                       resolveVersion env c tags \<noteq> [] \<and>
                       packSource p =
                         packageTagFmt (refString env ref) (resolveVersion env c tags)))"
  using assms
  by (auto simp: reconcileDependency_def Let_def newPack_def emptyPack_def
      split: sum.splits option.splits if_splits)

text \<open>Nothing from line 225 on looks at the graph.\<close>

lemma parseTags_dagInit [simp]:
  "parseTags (env\<lparr>dagInit := f\<rparr>) vs tags = parseTags env vs tags"
  by (induction tags arbitrary: vs) (auto split: sum.splits)

lemma selectVersion_dagInit [simp]:
  "selectVersion (env\<lparr>dagInit := f\<rparr>) c a vs = selectVersion env c a vs"
  by (induction vs arbitrary: a) auto

lemma resolveVersion_dagInit [simp]:
  "resolveVersion (env\<lparr>dagInit := f\<rparr>) c tags = resolveVersion env c tags"
  by (simp add: resolveVersion_def)

lemma logDebug_dagInit [simp]:
  "logDebug (env\<lparr>dagInit := f\<rparr>) evs msg kvs out = logDebug env evs msg kvs out"
  by (simp add: logDebug_def)

lemma reconcileDependency_dagInit:
  "reconcileDependency (env\<lparr>dagInit := f\<rparr>) d = reconcileDependency env d"
  by (auto simp: reconcileDependency_def Let_def split: sum.splits option.splits)

text \<open>The results of lines 199 to 224.\<close>

lemma reconcileGraph_returns:
  assumes "snd (reconcileGraph env lock) = Return res err"
  shows "(res = emptyResult \<or> res = requeueAfter shortWait) \<and>
         (err \<noteq> None \<longrightarrow> res = emptyResult) \<and>
         err =
           (case dagInit env (newDag env) (ToNodes (Packages lock)) of
              (Inl e, dag) \<Rightarrow> Some (Wrapped e errBuildDAG)
            | (Inr implied, dag) \<Rightarrow>
                (case dagSort env dag of
                   Inl e \<Rightarrow> Some (Wrapped e errSortDAG)
                 | Inr sortedNodes \<Rightarrow> None))"
proof (cases "dagInit env (newDag env) (ToNodes (Packages lock))")
  case (Pair r dag)
  show ?thesis
  proof (cases r)
    case (Inl e)
    with Pair assms show ?thesis by (auto simp: reconcileGraph_def Let_def)
  next
    case (Inr implied)
    show ?thesis
    proof (cases "dagSort env dag")
      case (Inl e)
      with Pair Inr assms show ?thesis by (auto simp: reconcileGraph_def Let_def)
    next
      case sorted: (Inr s)
      show ?thesis
      proof (cases implied)
        case Nil
        with Pair Inr sorted assms show ?thesis by (auto simp: reconcileGraph_def Let_def)
      next
        case (Cons n rest)
        show ?thesis
        proof (cases n)
          case (LockPackageNode p)
          with Pair Inr sorted Cons assms show ?thesis
            by (auto simp: reconcileGraph_def Let_def)
        next
          case (DependencyNode d)
          with Pair Inr sorted Cons assms
          have "snd (reconcileDependency env d) = Return res err"
            by (auto simp: reconcileGraph_def Let_def prepend_def)
          with reconcileDependency_returns[of env d] Pair Inr sorted
          show ?thesis by auto
        qed
      qed
    qed
  qed
qed

subsection \<open>Runs of the examples\<close>

lemmas example_defs =
  selectionEnv_def selectionTags_def selectionLock_def exampleEnv_def exampleLock_def
  exampleDependency_def exampleImplied_def ToNodes_def ConfigurationPackageType_def
  ProviderPackageType_def

lemmas example_defs2 = example_defs twoImpliedLock_def twoImpliedEnv_def secondDependency_def
  unsatisfiableEnv_def unsatisfiableLock_def emptyLock_def emptyLockEnv_def

lemmas example_defs3 = example_defs2 prefixedTagLock_def prefixedTagEnv_def invalidKindLock_def
  invalidKindEnv_def invalidKindFetchFailureEnv_def noReferenceDependency_def noReferenceLock_def
  noReferenceEnv_def developmentLoggerEnv_def getFailureEnv_def unparseableDependency_def
  unparseableLock_def unparseableEnv_def

lemmas pass_defs =
  Reconcile_def reconcileGraph_def reconcileDependency_def prepend_def graphPrefix_def

lemmas semver_defs =
  exampleNewConstraint_def exampleNewVersion_def parseUint_def isDigit_def exampleCheck_def
  exampleSort_def resolveVersion_def

lemma cyclic_run:
  "Reconcile cyclicEnv ''lock'' =
     (graphPrefix ''lock'' selectionLock,
      Return emptyResult (Some (Wrapped (Failure ''detected cyclic dependency'') errSortDAG)))"
  by (simp add: cyclicEnv_def example_defs pass_defs)

lemma fetch_failure_run:
  "Reconcile fetchFailureEnv ''lock'' =
     (graphPrefix ''lock'' selectionLock @
        [FetcherTags ''registry.io/org/config-b'',
         Debug errFetchTags [Key ''error'', Value (Failure ''registry timeout'')]],
      Return (requeueAfter shortWait) None)"
  by (simp add: fetchFailureEnv_def example_defs pass_defs semver_defs)

lemma two_reach: "reachesImplied twoImpliedEnv ''lock'' twoImpliedLock
      [DependencyNode (exampleDependency ProviderPackageType ''>=1.0.0,<2.0.0''),
       DependencyNode secondDependency]"
    by (simp add: reachesImplied_def example_defs2)

lemma two_run: "Reconcile twoImpliedEnv ''lock'' =
      (graphPrefix ''lock'' twoImpliedLock @
         [FetcherTags ''registry.io/org/config-b'',
          ClientCreate \<lparr>kind = Provider, packName = ''registry-io-org-config-b'',
                         packSource = ''registry.io/org/config-b:1.5.2''\<rparr>],
       Return emptyResult None)"
  by (simp add: example_defs2 pass_defs semver_defs newPack_def emptyPack_def packageTagFmt_def)

lemma unsatisfiable_reach:
  "reachesImplied unsatisfiableEnv ''lock'' unsatisfiableLock
     [DependencyNode (exampleDependency ProviderPackageType ''>=3.0.0'')]"
  by (simp add: reachesImplied_def example_defs3)

lemma prefixed_reach:
  "reachesImplied prefixedTagEnv ''lock'' prefixedTagLock
     [DependencyNode (exampleDependency ConfigurationPackageType ''>=1.0.0'')]"
  by (simp add: reachesImplied_def example_defs3)

lemma prefixed_run:
  "Reconcile prefixedTagEnv ''lock'' =
     (graphPrefix ''lock'' prefixedTagLock @
        [FetcherTags ''registry.io/org/config-b'',
         ClientCreate \<lparr>kind = Configuration, packName = ''registry-io-org-config-b'',
                        packSource = ''registry.io/org/config-b:v1.2.0''\<rparr>],
      Return emptyResult None)"
  by (simp add: example_defs3 pass_defs semver_defs newPack_def emptyPack_def packageTagFmt_def)

lemma invalid_kind_reach:
  "reachesImplied invalidKindEnv ''lock'' invalidKindLock
     [DependencyNode (exampleDependency ''Function'' ''>=1.0.0,<2.0.0'')]"
  by (simp add: reachesImplied_def example_defs3)

lemma invalid_kind_fetch_failure_reach:
  "reachesImplied invalidKindFetchFailureEnv ''lock'' invalidKindLock
     [DependencyNode (exampleDependency ''Function'' ''>=1.0.0,<2.0.0'')]"
  by (simp add: reachesImplied_def example_defs3)

lemma no_reference_reach:
  "reachesImplied noReferenceEnv ''lock'' noReferenceLock [DependencyNode noReferenceDependency]"
  by (simp add: reachesImplied_def example_defs3)

lemma get_failure_run:
  "Reconcile getFailureEnv ''lock'' =
     ([Debug ''Reconciling'' [], ClientGet ''lock'',
       Debug errGetLock [Key ''error'', Value (Failure ''connection refused'')]],
      Return emptyResult (Some (Wrapped (Failure ''connection refused'') errGetLock)))"
  by (simp add: example_defs3 pass_defs)

lemma unparseable_reach:
  "reachesImplied unparseableEnv ''lock'' unparseableLock [DependencyNode unparseableDependency]"
  by (simp add: reachesImplied_def example_defs3)

text \<open>
  The no-valid-version branch, line 266, for both kinds of logger: the call passes a lone
  value after the message.
\<close>

lemma no_valid_version_run:
  assumes reach: "reachesImplied env req lock (DependencyNode d # rest)"
      and con: "NewConstraint env (Constraints d) = Inr c"
      and ref: "ParseReference env (Package d) = Inr ref"
      and tags: "fetcherTags env ref = Inr tags"
      and perm: "mset (sortCollection env (parseTags env [] tags)) = mset (parseTags env [] tags)"
      and none: "\<forall>t \<in> set tags. \<forall>v. NewVersion env t = Inr v \<longrightarrow> \<not> Check env c v"
  shows "Reconcile env req =
           (if oddArgsPanic env then (graphPrefix req lock @ [FetcherTags ref], Panic)
            else (graphPrefix req lock @
                    [FetcherTags ref,
                     Debug errNoValidVersion
                       [Value (Failure (errNoValidVersionFmt (Package d) (Constraints d)))]],
                  Return emptyResult None))"
proof -
  have "set (sortCollection env (parseTags env [] tags)) = set (parseTags env [] tags)"
    using perm by (rule mset_eq_setD)
  then have "filter (Check env c) (sortCollection env (parseTags env [] tags)) = []"
    using none by (auto simp: filter_empty_conv set_parseTags)
  then have r: "resolveVersion env c tags = []"
    by (simp add: resolveVersion_def selectVersion_last)
  have d: "reconcileDependency env d =
      (if oddArgsPanic env then ([FetcherTags ref], Panic)
       else ([FetcherTags ref,
              Debug errNoValidVersion
                [Value (Failure (errNoValidVersionFmt (Package d) (Constraints d)))]],
             Return emptyResult None))"
    by (simp add: reconcileDependency_def con ref tags r)
  show ?thesis
    unfolding Reconcile_reaches[OF reach] d by simp
qed

section \<open>Version selection\<close>

text \<open>
  Claim C1. Every tag is parsed as a semantic version and a tag that does not parse is
  skipped; the parsed versions are sorted in ascending order and the version selected is the
  last one of that order that satisfies the constraint, which is a highest one: no parsed
  version that satisfies the constraint is above it. When none satisfies it nothing is
  selected. The sort is the library's: it is asked to return a permutation of its input
  in ascending order, for an order in which no version is below itself.
\<close>

theorem version_selection:
  assumes perm: "mset (sortCollection env (parseTags env [] tags)) = mset (parseTags env [] tags)"
      and srt: "sorted_wrt (\<lambda>a b. \<not> LessThan env b a)
                  (sortCollection env (parseTags env [] tags))"
      and irr: "\<forall>v. \<not> LessThan env v v"
  shows "parseTags env [] tags = List.map_filter (parsedVersion env) tags \<and>
         (let ms = filter (Check env c) (sortCollection env (parseTags env [] tags)) in
            resolveVersion env c tags = (if ms = [] then [] else Original env (last ms)) \<and>
            (ms \<noteq> [] \<longrightarrow>
               last ms \<in> set (parseTags env [] tags) \<and> Check env c (last ms) \<and>
               (\<forall>w \<in> set (parseTags env [] tags).
                  Check env c w \<longrightarrow> \<not> LessThan env (last ms) w)))"
proof -
  let ?vs = "parseTags env [] tags"
  let ?ys = "sortCollection env ?vs"
  let ?ms = "filter (Check env c) ?ys"
  have seteq: "set ?ys = set ?vs"
    using perm by (rule mset_eq_setD)
  have a: "?vs = List.map_filter (parsedVersion env) tags"
    by (simp add: parseTags_acc)
  have b: "resolveVersion env c tags = (if ?ms = [] then [] else Original env (last ?ms))"
    by (simp add: resolveVersion_def selectVersion_last)
  have c: "last ?ms \<in> set ?vs \<and> Check env c (last ?ms) \<and>
           (\<forall>w \<in> set ?vs. Check env c w \<longrightarrow> \<not> LessThan env (last ?ms) w)"
    if ne: "?ms \<noteq> []"
  proof -
    have "last ?ms \<in> set ?ms" using ne by (rule last_in_set)
    then have m: "last ?ms \<in> set ?vs" "Check env c (last ?ms)"
      using seteq by auto
    have "\<not> LessThan env (last ?ms) w" if "w \<in> set ?vs" "Check env c w" for w
      using last_match_highest[OF srt _ ne, of w] irr that seteq by auto
    with m show ?thesis by blast
  qed
  show ?thesis using a b c by (simp add: Let_def)
qed

text \<open>
  The example of the specification: the constraint \<^verbatim>\<open>>=1.0.0,<2.0.0\<close> and the tags
  0.9.0, 1.0.0, 1.5.2, 2.0.0 and not-a-version select 1.5.2.
\<close>

theorem version_selection_example:
  "mset (sortCollection selectionEnv (parseTags selectionEnv [] selectionTags)) =
     mset (parseTags selectionEnv [] selectionTags) \<and>
   sorted_wrt (\<lambda>a b. \<not> LessThan selectionEnv b a)
     (sortCollection selectionEnv (parseTags selectionEnv [] selectionTags)) \<and>
   (\<forall>v. \<not> LessThan selectionEnv v v) \<and>
   NewConstraint selectionEnv ''>=1.0.0,<2.0.0'' =
     Inr [(OpGE, Version 1 0 0 ''1.0.0''), (OpLT, Version 2 0 0 ''2.0.0'')] \<and>
   parseTags selectionEnv [] selectionTags =
     [Version 0 9 0 ''0.9.0'', Version 1 0 0 ''1.0.0'', Version 1 5 2 ''1.5.2'',
      Version 2 0 0 ''2.0.0''] \<and>
   resolveVersion selectionEnv [(OpGE, Version 1 0 0 ''1.0.0''), (OpLT, Version 2 0 0 ''2.0.0'')]
     selectionTags = ''1.5.2''"
proof -
  let ?env = "selectionEnv"
  let ?tags = "selectionTags"
  let ?c = "[(OpGE, Version 1 0 0 ''1.0.0''), (OpLT, Version 2 0 0 ''2.0.0'')]"
  have p: "parseTags ?env [] ?tags =
      [Version 0 9 0 ''0.9.0'', Version 1 0 0 ''1.0.0'', Version 1 5 2 ''1.5.2'',
       Version 2 0 0 ''2.0.0'']"
    by (simp add: selectionEnv_def selectionTags_def exampleEnv_def exampleNewVersion_def
        parseUint_def isDigit_def)
  have s: "sortCollection ?env (parseTags ?env [] ?tags) = parseTags ?env [] ?tags"
    unfolding p by (simp add: selectionEnv_def exampleEnv_def exampleSort_def)
  have h1: "mset (sortCollection ?env (parseTags ?env [] ?tags)) = mset (parseTags ?env [] ?tags)"
    unfolding s by simp
  have h2: "sorted_wrt (\<lambda>a b. \<not> LessThan ?env b a)
              (sortCollection ?env (parseTags ?env [] ?tags))"
    unfolding s unfolding p by (simp add: selectionEnv_def exampleEnv_def)
  have h3: "\<forall>v. \<not> LessThan ?env v v"
  proof
    fix v show "\<not> LessThan ?env v v"
      by (cases v) (simp add: selectionEnv_def exampleEnv_def)
  qed
  have c: "NewConstraint ?env ''>=1.0.0,<2.0.0'' = Inr ?c"
    by (simp add: selectionEnv_def exampleEnv_def exampleNewConstraint_def exampleNewVersion_def
        parseUint_def isDigit_def)
  have r: "resolveVersion ?env ?c ?tags = ''1.5.2''"
    using version_selection[OF h1 h2 h3, of ?c]
    unfolding s unfolding p
    by (simp add: selectionEnv_def exampleEnv_def exampleCheck_def)
  show ?thesis using h1 h2 h3 c p r by blast
qed

section \<open>Cycles\<close>

text \<open>
  Claim C2. When the sort of the graph built from the lock returns an error, the pass
  makes no creation call and fetches no tags; and a pass that gets as far as the sort
  (packages in the lock, finalizer added, graph built) ends right after it, with the sort's
  error wrapped, whatever implied nodes the graph has reported.
\<close>

theorem cycle_safety:
  assumes get: "clientGet env req = Inr lock"
      and cyc: "dagSort env (snd (dagInit env (newDag env) (ToNodes (Packages lock)))) = Inl err"
  shows "creations (fst (Reconcile env req)) = [] \<and> fetches (fst (Reconcile env req)) = [] \<and>
         (Packages lock \<noteq> [] \<and> lockAddFinalizer env lock = None \<and>
          fst (dagInit env (newDag env) (ToNodes (Packages lock))) = Inr implied \<longrightarrow>
            Reconcile env req =
              (graphPrefix req lock, Return emptyResult (Some (Wrapped err errSortDAG))))"
  using assms
  by (auto simp: Reconcile_def reconcileGraph_def prepend_def graphPrefix_def Let_def
      split: prod.splits sum.splits option.splits)

theorem cycle_safety_example:
  "clientGet cyclicEnv ''lock'' = Inr selectionLock \<and>
   dagSort cyclicEnv (snd (dagInit cyclicEnv (newDag cyclicEnv) (ToNodes (Packages selectionLock))))
     = Inl (Failure ''detected cyclic dependency'') \<and>
   Packages selectionLock \<noteq> [] \<and> lockAddFinalizer cyclicEnv selectionLock = None \<and>
   fst (dagInit cyclicEnv (newDag cyclicEnv) (ToNodes (Packages selectionLock))) =
     Inr [DependencyNode (exampleDependency ProviderPackageType ''>=1.0.0,<2.0.0'')] \<and>
   creations (fst (Reconcile cyclicEnv ''lock'')) = [] \<and>
   Reconcile cyclicEnv ''lock'' =
     (graphPrefix ''lock'' selectionLock,
      Return emptyResult (Some (Wrapped (Failure ''detected cyclic dependency'') errSortDAG)))"
proof -
  have get: "clientGet cyclicEnv ''lock'' = Inr selectionLock"
    by (simp add: cyclicEnv_def selectionEnv_def selectionLock_def exampleEnv_def exampleLock_def)
  have cyc: "dagSort cyclicEnv
      (snd (dagInit cyclicEnv (newDag cyclicEnv) (ToNodes (Packages selectionLock))))
     = Inl (Failure ''detected cyclic dependency'')"
    by (simp add: cyclicEnv_def)
  have ne: "Packages selectionLock \<noteq> []"
    by (simp add: selectionLock_def exampleLock_def)
  have fin: "lockAddFinalizer cyclicEnv selectionLock = None"
    by (simp add: cyclicEnv_def selectionEnv_def exampleEnv_def)
  have imp: "fst (dagInit cyclicEnv (newDag cyclicEnv) (ToNodes (Packages selectionLock))) =
     Inr [DependencyNode (exampleDependency ProviderPackageType ''>=1.0.0,<2.0.0'')]"
    by (simp add: cyclicEnv_def selectionEnv_def selectionLock_def exampleEnv_def exampleLock_def
        ToNodes_def exampleImplied_def exampleDependency_def)
  show ?thesis
    using cycle_safety[OF get cyc,
        of "[DependencyNode (exampleDependency ProviderPackageType ''>=1.0.0,<2.0.0'')]"]
      get cyc ne fin imp
    by (simp add: graphPrefix_quiet)
qed

section \<open>One dependency for each pass\<close>

text \<open>
  Claim C3. A pass that arrives at line 212 with at least one implied node makes at most
  one creation call and at most one tag fetch. It behaves exactly as if the first implied
  node were the only one: the nodes after it change neither the calls nor the result. A
  package that is created is the one of the first implied node: that node is a dependency,
  the tags fetched are those of its image reference, and the name, the kind and the source
  of the package come from its reference, its type and the version selected for its
  constraint.
\<close>

theorem single_step_progress:
  assumes reach: "reachesImplied env req lock (node # rest)"
  shows "length (creations (fst (Reconcile env req))) \<le> 1 \<and>
         length (fetches (fst (Reconcile env req))) \<le> 1 \<and>
         Reconcile (env\<lparr>dagInit := (\<lambda>d ns. (Inr [node], snd (dagInit env d ns)))\<rparr>) req =
           Reconcile env req \<and>
         (\<forall>p \<in> set (creations (fst (Reconcile env req))).
            case node of
              LockPackageNode lp \<Rightarrow> False
            | DependencyNode d \<Rightarrow>
                (case ParseReference env (Package d) of
                   Inl err \<Rightarrow> False
                 | Inr ref \<Rightarrow>
                     fetches (fst (Reconcile env req)) = [ref] \<and>
                     packName p = ToDNSLabel env (RepositoryStr env ref) \<and>
                     newPack (Type d) = Some (emptyPack (kind p)) \<and>
                     (case NewConstraint env (Constraints d) of
                        Inl err \<Rightarrow> False
                      | Inr c \<Rightarrow>
                          (case fetcherTags env ref of
                             Inl err \<Rightarrow> False
                           | Inr tags \<Rightarrow>
                               resolveVersion env c tags \<noteq> [] \<and>
                               packSource p =
                                 packageTagFmt (refString env ref) (resolveVersion env c tags)))))"
proof (cases node)
  case (LockPackageNode lp)
  let ?env' = "env\<lparr>dagInit := (\<lambda>d ns. (Inr [node], snd (dagInit env d ns)))\<rparr>"
  have r: "Reconcile env req = (graphPrefix req lock, Panic)"
    using reach unfolding LockPackageNode by (rule Reconcile_reaches_other)
  have "reachesImplied ?env' req lock (LockPackageNode lp # [])"
    using reach by (simp add: reachesImplied_def LockPackageNode)
  then have r': "Reconcile ?env' req = (graphPrefix req lock, Panic)"
    by (rule Reconcile_reaches_other)
  show ?thesis using r r' by (simp add: graphPrefix_quiet)
next
  case (DependencyNode d)
  let ?env' = "env\<lparr>dagInit := (\<lambda>d ns. (Inr [node], snd (dagInit env d ns)))\<rparr>"
  have r: "Reconcile env req =
      (graphPrefix req lock @ fst (reconcileDependency env d), snd (reconcileDependency env d))"
    using reach unfolding DependencyNode by (rule Reconcile_reaches)
  have "reachesImplied ?env' req lock (DependencyNode d # [])"
    using reach by (simp add: reachesImplied_def DependencyNode)
  then have r': "Reconcile ?env' req =
      (graphPrefix req lock @ fst (reconcileDependency ?env' d),
       snd (reconcileDependency ?env' d))"
    by (rule Reconcile_reaches)
  have c: "creations (fst (Reconcile env req)) = creations (fst (reconcileDependency env d))"
    by (simp add: r creations_append graphPrefix_quiet)
  have f: "fetches (fst (Reconcile env req)) = fetches (fst (reconcileDependency env d))"
    by (simp add: r fetches_append graphPrefix_quiet)
  have 1: "length (creations (fst (Reconcile env req))) \<le> 1"
    unfolding c by (rule reconcileDependency_creations)
  have 2: "length (fetches (fst (Reconcile env req))) \<le> 1"
    unfolding f by (rule reconcileDependency_fetches)
  have 3: "Reconcile ?env' req = Reconcile env req"
    unfolding r r' by (simp add: reconcileDependency_dagInit)
  have 4: "case ParseReference env (Package d) of
             Inl err \<Rightarrow> False
           | Inr ref \<Rightarrow>
               fetches (fst (Reconcile env req)) = [ref] \<and>
               packName p = ToDNSLabel env (RepositoryStr env ref) \<and>
               newPack (Type d) = Some (emptyPack (kind p)) \<and>
               (case NewConstraint env (Constraints d) of
                  Inl err \<Rightarrow> False
                | Inr c \<Rightarrow>
                    (case fetcherTags env ref of
                       Inl err \<Rightarrow> False
                     | Inr tags \<Rightarrow>
                         resolveVersion env c tags \<noteq> [] \<and>
                         packSource p =
                           packageTagFmt (refString env ref) (resolveVersion env c tags)))"
    if "p \<in> set (creations (fst (Reconcile env req)))" for p
    using created_pack[of p env d] that unfolding c f by simp
  show ?thesis using 1 2 3 4 unfolding DependencyNode by simp
qed

text \<open>Two implied nodes: only the first one is fetched and created.\<close>

theorem single_step_example:
  "reachesImplied twoImpliedEnv ''lock'' twoImpliedLock
     [DependencyNode (exampleDependency ProviderPackageType ''>=1.0.0,<2.0.0''),
      DependencyNode secondDependency] \<and>
   length (creations (fst (Reconcile twoImpliedEnv ''lock''))) \<le> 1 \<and>
   creations (fst (Reconcile twoImpliedEnv ''lock'')) =
     [\<lparr>kind = Provider, packName = ''registry-io-org-config-b'',
       packSource = ''registry.io/org/config-b:1.5.2''\<rparr>] \<and>
   fetches (fst (Reconcile twoImpliedEnv ''lock'')) = [''registry.io/org/config-b'']"
proof -
  have c: "creations (fst (Reconcile twoImpliedEnv ''lock'')) =
     [\<lparr>kind = Provider, packName = ''registry-io-org-config-b'',
       packSource = ''registry.io/org/config-b:1.5.2''\<rparr>]"
    by (simp add: two_run creations_append graphPrefix_quiet)
  have f: "fetches (fst (Reconcile twoImpliedEnv ''lock'')) = [''registry.io/org/config-b'']"
    by (simp add: two_run fetches_append graphPrefix_quiet)
  from single_step_progress[OF two_reach]
  have "length (creations (fst (Reconcile twoImpliedEnv ''lock''))) \<le> 1" by blast
  with two_reach c f show ?thesis by blast
qed

section \<open>What a pass returns\<close>

text \<open>
  Claim C4, as the code has it. Claimed: no pass returns a non-nil error. The pass
  returns a non-nil error in three places, each time with the empty result: the error of
  fetching the lock, unless it is a not-found error, wrapped with the message "cannot get
  package lock"; the error of building the graph, wrapped with "cannot build DAG"; the
  error of sorting it, wrapped with "cannot sort DAG". Every other pass that returns gives
  the empty result or a requeue after \<open>shortWait\<close>, with a nil error.
\<close>

theorem return_values:
  assumes ret: "snd (Reconcile env req) = Return res err"
  shows "(res = emptyResult \<or> res = requeueAfter shortWait) \<and>
         (err \<noteq> None \<longrightarrow> res = emptyResult) \<and>
         err =
           (case clientGet env req of
              Inl e \<Rightarrow> if IsNotFound e then None else Some (Wrapped e errGetLock)
            | Inr lock \<Rightarrow>
                if Packages lock = [] \<or> lockAddFinalizer env lock \<noteq> None then None
                else
                  (case dagInit env (newDag env) (ToNodes (Packages lock)) of
                     (Inl e, dag) \<Rightarrow> Some (Wrapped e errBuildDAG)
                   | (Inr implied, dag) \<Rightarrow>
                       (case dagSort env dag of
                          Inl e \<Rightarrow> Some (Wrapped e errSortDAG)
                        | Inr sortedNodes \<Rightarrow> None))) \<and>
         errGetLock = ''cannot get package lock'' \<and> errBuildDAG = ''cannot build DAG'' \<and>
         errSortDAG = ''cannot sort DAG''"
proof -
  have msgs: "errGetLock = ''cannot get package lock'' \<and> errBuildDAG = ''cannot build DAG'' \<and>
      errSortDAG = ''cannot sort DAG''"
    by (simp add: errGetLock_def errBuildDAG_def errSortDAG_def)
  show ?thesis
  proof (cases "clientGet env req")
    case (Inl e)
    with ret msgs show ?thesis by (auto simp: Reconcile_def split: if_splits)
  next
    case (Inr lock)
    show ?thesis
    proof (cases "Packages lock = []")
      case True
      with Inr ret msgs show ?thesis by (auto simp: Reconcile_def split: option.splits)
    next
      case False
      show ?thesis
      proof (cases "lockAddFinalizer env lock")
        case (Some e)
        with Inr False ret msgs show ?thesis by (auto simp: Reconcile_def)
      next
        case None
        with Inr False ret have "snd (reconcileGraph env lock) = Return res err"
          by (auto simp: Reconcile_def prepend_def)
        from reconcileGraph_returns[OF this] Inr False None msgs show ?thesis by simp
      qed
    qed
  qed
qed

text \<open>A pass that cannot reach the API server returns the wrapped error of the client.\<close>

theorem return_values_example:
  "snd (Reconcile getFailureEnv ''lock'') =
     Return emptyResult (Some (Wrapped (Failure ''connection refused'') errGetLock)) \<and>
   (case clientGet getFailureEnv ''lock'' of
      Inl e \<Rightarrow> if IsNotFound e then None else Some (Wrapped e errGetLock)
    | Inr lock \<Rightarrow>
        if Packages lock = [] \<or> lockAddFinalizer getFailureEnv lock \<noteq> None then None
        else
          (case dagInit getFailureEnv (newDag getFailureEnv) (ToNodes (Packages lock)) of
             (Inl e, dag) \<Rightarrow> Some (Wrapped e errBuildDAG)
           | (Inr implied, dag) \<Rightarrow>
               (case dagSort getFailureEnv dag of
                  Inl e \<Rightarrow> Some (Wrapped e errSortDAG)
                | Inr sortedNodes \<Rightarrow> None))) =
     Some (Wrapped (Failure ''connection refused'') ''cannot get package lock'')"
proof -
  have r: "snd (Reconcile getFailureEnv ''lock'') =
      Return emptyResult (Some (Wrapped (Failure ''connection refused'') errGetLock))"
    by (simp add: get_failure_run)
  show ?thesis using return_values[OF r] r by (simp add: errGetLock_def)
qed

text \<open>A pass over a graph with a cycle returns the wrapped error of the sort.\<close>

theorem return_values_counterexample:
  "snd (Reconcile cyclicEnv ''lock'') =
     Return emptyResult (Some (Wrapped (Failure ''detected cyclic dependency'') errSortDAG)) \<and>
   snd (Reconcile cyclicEnv ''lock'') \<noteq> Return emptyResult None \<and>
   snd (Reconcile cyclicEnv ''lock'') \<noteq> Return (requeueAfter shortWait) None"
  by (simp add: cyclic_run)

section \<open>A first implied node that is not a dependency\<close>

text \<open>
  Claim C5. Claimed: the pass handles a failed type assertion locally and never panics.
  The branch of line 221 builds its log line from \<^verbatim>\<open>dep.Identifier()\<close>, and \<open>dep\<close>
  is nil there: the pass panics before it logs or returns.
\<close>

theorem assertion_failure_panics:
  "Reconcile otherNodeEnv ''lock'' = (graphPrefix ''lock'' selectionLock, Panic)"
  by (simp add: otherNodeEnv_def example_defs pass_defs)

section \<open>No version satisfies the constraint\<close>

text \<open>
  Claim C6. Claimed: when no parsed version satisfies the constraint the pass logs the
  no-valid-version failure and exits cleanly. The log call of line 266 passes the error as
  a lone value, without the key that every other log call of the pass gives it. With the
  constraint \<^verbatim>\<open>>=3.0.0\<close> and the tags 1.0.0 and 2.0.0 of the specification, under a
  logger that panics on a key without a value, the pass panics after the fetch: it logs
  nothing there and returns nothing.
\<close>

theorem no_valid_version_panics:
  "Reconcile developmentLoggerEnv ''lock'' =
     (graphPrefix ''lock'' unsatisfiableLock @ [FetcherTags ''registry.io/org/config-b''],
      Panic)"
  by (simp add: example_defs3 pass_defs semver_defs)

section \<open>A lock without packages\<close>

text \<open>
  Claim C7. When the package list of the lock is empty the pass asks for the removal of
  the finalizer and does nothing else: no graph is built or sorted, no tags are fetched and
  no package is created. When the removal fails the pass returns a requeue after
  \<open>shortWait\<close>, thirty seconds, and a nil error; when it succeeds the pass returns the
  empty result and a nil error.
\<close>

theorem empty_lock_finalizer:
  assumes get: "clientGet env req = Inr lock"
      and empty: "Packages lock = []"
  shows "Reconcile env req =
           (case lockRemoveFinalizer env lock of
              Some err \<Rightarrow>
                ([Debug ''Reconciling'' [], ClientGet req, RemoveFinalizer lock,
                  Debug errRemoveFinalizer [Key ''error'', Value err]],
                 Return (requeueAfter shortWait) None)
            | None \<Rightarrow>
                ([Debug ''Reconciling'' [], ClientGet req, RemoveFinalizer lock],
                 Return emptyResult None)) \<and>
         RemoveFinalizer lock \<in> set (fst (Reconcile env req)) \<and>
         (\<forall>e \<in> set (fst (Reconcile env req)). \<not> isGraphCall e) \<and>
         fetches (fst (Reconcile env req)) = [] \<and>
         creations (fst (Reconcile env req)) = [] \<and>
         RequeueAfter (requeueAfter shortWait) = 30 * Second \<and>
         RequeueAfter emptyResult = 0 \<and> \<not> Requeue emptyResult"
  using assms
  by (auto simp: Reconcile_def requeueAfter_def emptyResult_def shortWait_def
      split: option.splits)

theorem empty_lock_example:
  "clientGet emptyLockEnv ''lock'' = Inr emptyLock \<and> Packages emptyLock = [] \<and>
   Reconcile emptyLockEnv ''lock'' =
     ([Debug ''Reconciling'' [], ClientGet ''lock'', RemoveFinalizer emptyLock,
       Debug errRemoveFinalizer [Key ''error'', Value (Failure ''conflict'')]],
      Return (requeueAfter shortWait) None)"
proof -
  have get: "clientGet emptyLockEnv ''lock'' = Inr emptyLock"
    by (simp add: example_defs3)
  have empty: "Packages emptyLock = []"
    by (simp add: emptyLock_def)
  have rm: "lockRemoveFinalizer emptyLockEnv emptyLock = Some (Failure ''conflict'')"
    by (simp add: emptyLockEnv_def)
  show ?thesis
    using empty_lock_finalizer[OF get empty] get empty rm by simp
qed

section \<open>The source of a created package\<close>

text \<open>
  Claim C8. The source of a created package is the string of the parsed image reference,
  a colon, and the original string of the selected version, which is the last version of
  the sorted list that satisfies the constraint. The library keeps, as the original string
  of a version, the string it was parsed from; so the text after the colon is one of the
  fetched tags, character for character, and it parses to the selected version.
\<close>

theorem original_round_trip:
  assumes reach: "reachesImplied env req lock (DependencyNode d # rest)"
      and con: "NewConstraint env (Constraints d) = Inr c"
      and ref: "ParseReference env (Package d) = Inr ref"
      and tags: "fetcherTags env ref = Inr tags"
      and perm: "mset (sortCollection env (parseTags env [] tags)) = mset (parseTags env [] tags)"
      and lib: "\<forall>t \<in> set tags. \<forall>v. NewVersion env t = Inr v \<longrightarrow> Original env v = t"
      and created: "p \<in> set (creations (fst (Reconcile env req)))"
  shows "(let ms = filter (Check env c) (sortCollection env (parseTags env [] tags)) in
            ms \<noteq> [] \<and>
            packSource p = refString env ref @ '':'' @ Original env (last ms) \<and>
            Original env (last ms) \<in> set tags \<and>
            NewVersion env (Original env (last ms)) = Inr (last ms))"
proof -
  let ?vs = "parseTags env [] tags"
  let ?ms = "filter (Check env c) (sortCollection env ?vs)"
  have "p \<in> set (creations (fst (reconcileDependency env d)))"
    using created unfolding Reconcile_reaches[OF reach]
    by (simp add: creations_append graphPrefix_quiet)
  from created_pack[OF this]
  have sel: "resolveVersion env c tags \<noteq> []"
    and src: "packSource p = packageTagFmt (refString env ref) (resolveVersion env c tags)"
    by (simp_all add: con ref tags)
  have rv: "resolveVersion env c tags = (if ?ms = [] then [] else Original env (last ?ms))"
    by (simp add: resolveVersion_def selectVersion_last)
  with sel have ne: "?ms \<noteq> []" by (auto split: if_splits)
  then have "last ?ms \<in> set ?ms" by (rule last_in_set)
  moreover have "set (sortCollection env ?vs) = set ?vs"
    using perm by (rule mset_eq_setD)
  ultimately have "last ?ms \<in> set ?vs" by auto
  then obtain t where t: "t \<in> set tags" "NewVersion env t = Inr (last ?ms)"
    by (auto simp: set_parseTags)
  with lib have o: "Original env (last ?ms) = t" by blast
  show ?thesis
    using ne src rv t o by (simp add: Let_def packageTagFmt_def)
qed

text \<open>The tag \<^verbatim>\<open>v1.2.0\<close> is the tag of the created package's source.\<close>

theorem original_round_trip_example:
  "reachesImplied prefixedTagEnv ''lock'' prefixedTagLock
     [DependencyNode (exampleDependency ConfigurationPackageType ''>=1.0.0'')] \<and>
   fetcherTags prefixedTagEnv ''registry.io/org/config-b'' = Inr [''v1.2.0''] \<and>
   creations (fst (Reconcile prefixedTagEnv ''lock'')) =
     [\<lparr>kind = Configuration, packName = ''registry-io-org-config-b'',
       packSource = ''registry.io/org/config-b:v1.2.0''\<rparr>] \<and>
   Original prefixedTagEnv
     (last (filter (Check prefixedTagEnv [(OpGE, Version 1 0 0 ''1.0.0'')])
        (sortCollection prefixedTagEnv (parseTags prefixedTagEnv [] [''v1.2.0''])))) = ''v1.2.0''"
proof -
  let ?d = "exampleDependency ConfigurationPackageType ''>=1.0.0''"
  let ?c = "[(OpGE, Version 1 0 0 ''1.0.0'')]"
  let ?tags = "[''v1.2.0'']"
  let ?p = "\<lparr>kind = Configuration, packName = ''registry-io-org-config-b'',
             packSource = ''registry.io/org/config-b:v1.2.0''\<rparr>"
  have con: "NewConstraint prefixedTagEnv (Constraints ?d) = Inr ?c"
    by (simp add: example_defs3 semver_defs)
  have ref: "ParseReference prefixedTagEnv (Package ?d) = Inr ''registry.io/org/config-b''"
    by (simp add: example_defs3)
  have tags: "fetcherTags prefixedTagEnv ''registry.io/org/config-b'' = Inr ?tags"
    by (simp add: example_defs3)
  have p: "parseTags prefixedTagEnv [] ?tags = [Version 1 2 0 ''v1.2.0'']"
    by (simp add: example_defs3 semver_defs)
  have perm: "mset (sortCollection prefixedTagEnv (parseTags prefixedTagEnv [] ?tags)) =
      mset (parseTags prefixedTagEnv [] ?tags)"
    unfolding p by (simp add: example_defs3 semver_defs)
  have lib: "\<forall>t \<in> set ?tags. \<forall>v. NewVersion prefixedTagEnv t = Inr v \<longrightarrow>
      Original prefixedTagEnv v = t"
    by (auto simp: example_defs3 semver_defs)
  have cr: "creations (fst (Reconcile prefixedTagEnv ''lock'')) = [?p]"
    by (simp add: prefixed_run creations_append graphPrefix_quiet)
  then have created: "?p \<in> set (creations (fst (Reconcile prefixedTagEnv ''lock'')))"
    by simp
  have rs: "refString prefixedTagEnv ''registry.io/org/config-b'' = ''registry.io/org/config-b''"
    by (simp add: example_defs3)
  from original_round_trip[OF prefixed_reach con ref tags perm lib created]
  have "Original prefixedTagEnv
     (last (filter (Check prefixedTagEnv ?c)
        (sortCollection prefixedTagEnv (parseTags prefixedTagEnv [] ?tags)))) = ''v1.2.0''"
    by (simp add: Let_def rs)
  with prefixed_reach tags cr show ?thesis by blast
qed

section \<open>A dependency of an unknown type\<close>

text \<open>
  Claim C9, as the code has it. Claimed: for every first implied dependency whose type is
  neither Configuration nor Provider the pass logs the invalid-package-type failure and
  returns without a requeue. The type is looked at on line 271, after the constraint, the
  image reference, the tags and the version. So: for such a dependency no package is ever
  created; and when its constraint and its image reference parse, its tags are fetched and
  a version is selected, the pass logs the invalid-package-type failure and returns the
  empty result and a nil error.
\<close>

theorem invalid_package_type:
  assumes reach: "reachesImplied env req lock (DependencyNode d # rest)"
      and kind1: "Type d \<noteq> ConfigurationPackageType"
      and kind2: "Type d \<noteq> ProviderPackageType"
  shows "creations (fst (Reconcile env req)) = [] \<and>
         (\<forall>c ref tags.
            NewConstraint env (Constraints d) = Inr c \<and>
            ParseReference env (Package d) = Inr ref \<and>
            fetcherTags env ref = Inr tags \<and> resolveVersion env c tags \<noteq> [] \<longrightarrow>
            Reconcile env req =
              (graphPrefix req lock @ [FetcherTags ref, Debug errInvalidPackageType []],
               Return emptyResult None))"
proof -
  have np: "newPack (Type d) = None"
    using kind1 kind2 by (simp add: newPack_def)
  have a: "creations (fst (reconcileDependency env d)) = []"
    by (auto simp: reconcileDependency_def Let_def np split: sum.splits option.splits)
  have b: "reconcileDependency env d =
      ([FetcherTags ref, Debug errInvalidPackageType []], Return emptyResult None)"
    if "NewConstraint env (Constraints d) = Inr c" "ParseReference env (Package d) = Inr ref"
      "fetcherTags env ref = Inr tags" "resolveVersion env c tags \<noteq> []" for c ref tags
    using that by (simp add: reconcileDependency_def np)
  show ?thesis
    unfolding Reconcile_reaches[OF reach]
    using a b by (auto simp: creations_append graphPrefix_quiet)
qed

theorem invalid_package_type_example:
  "reachesImplied invalidKindEnv ''lock'' invalidKindLock
     [DependencyNode (exampleDependency ''Function'' ''>=1.0.0,<2.0.0'')] \<and>
   Type (exampleDependency ''Function'' ''>=1.0.0,<2.0.0'') \<noteq> ConfigurationPackageType \<and>
   Type (exampleDependency ''Function'' ''>=1.0.0,<2.0.0'') \<noteq> ProviderPackageType \<and>
   resolveVersion invalidKindEnv [(OpGE, Version 1 0 0 ''1.0.0''), (OpLT, Version 2 0 0 ''2.0.0'')]
     selectionTags = ''1.5.2'' \<and>
   creations (fst (Reconcile invalidKindEnv ''lock'')) = [] \<and>
   Reconcile invalidKindEnv ''lock'' =
     (graphPrefix ''lock'' invalidKindLock @
        [FetcherTags ''registry.io/org/config-b'', Debug errInvalidPackageType []],
      Return emptyResult None)"
proof -
  let ?d = "exampleDependency ''Function'' ''>=1.0.0,<2.0.0''"
  let ?c = "[(OpGE, Version 1 0 0 ''1.0.0''), (OpLT, Version 2 0 0 ''2.0.0'')]"
  have k1: "Type ?d \<noteq> ConfigurationPackageType"
    by (simp add: example_defs3)
  have k2: "Type ?d \<noteq> ProviderPackageType"
    by (simp add: example_defs3)
  have con: "NewConstraint invalidKindEnv (Constraints ?d) = Inr ?c"
    by (simp add: example_defs3 semver_defs)
  have ref: "ParseReference invalidKindEnv (Package ?d) = Inr ''registry.io/org/config-b''"
    by (simp add: example_defs3)
  have tags: "fetcherTags invalidKindEnv ''registry.io/org/config-b'' = Inr selectionTags"
    by (simp add: example_defs3)
  have rv: "resolveVersion invalidKindEnv ?c selectionTags = ''1.5.2''"
    by (simp add: example_defs3 semver_defs)
  then have ne: "resolveVersion invalidKindEnv ?c selectionTags \<noteq> []"
    by simp
  from invalid_package_type[OF invalid_kind_reach k1 k2] con ref tags ne
  have "creations (fst (Reconcile invalidKindEnv ''lock'')) = [] \<and>
        Reconcile invalidKindEnv ''lock'' =
          (graphPrefix ''lock'' invalidKindLock @
             [FetcherTags ''registry.io/org/config-b'', Debug errInvalidPackageType []],
           Return emptyResult None)"
    by blast
  with invalid_kind_reach k1 k2 rv show ?thesis by blast
qed

text \<open>
  A dependency of type \<^verbatim>\<open>Function\<close> whose tags cannot be fetched: the pass returns
  a requeue after \<open>shortWait\<close> and never logs the invalid-package-type failure.
\<close>

theorem invalid_package_type_counterexample:
  "reachesImplied invalidKindFetchFailureEnv ''lock'' invalidKindLock
     [DependencyNode (exampleDependency ''Function'' ''>=1.0.0,<2.0.0'')] \<and>
   Type (exampleDependency ''Function'' ''>=1.0.0,<2.0.0'') \<noteq> ConfigurationPackageType \<and>
   Type (exampleDependency ''Function'' ''>=1.0.0,<2.0.0'') \<noteq> ProviderPackageType \<and>
   Reconcile invalidKindFetchFailureEnv ''lock'' =
     (graphPrefix ''lock'' invalidKindLock @
        [FetcherTags ''registry.io/org/config-b'',
         Debug errFetchTags [Key ''error'', Value (Failure ''registry timeout'')]],
      Return (requeueAfter shortWait) None) \<and>
   Return (requeueAfter shortWait) None \<noteq> Return emptyResult None \<and>
   (errInvalidPackageType, []) \<notin> set (debugLines (fst (Reconcile invalidKindFetchFailureEnv ''lock'')))"
proof -
  have run: "Reconcile invalidKindFetchFailureEnv ''lock'' =
     (graphPrefix ''lock'' invalidKindLock @
        [FetcherTags ''registry.io/org/config-b'',
         Debug errFetchTags [Key ''error'', Value (Failure ''registry timeout'')]],
      Return (requeueAfter shortWait) None)"
    by (simp add: example_defs3 pass_defs semver_defs)
  have k: "Type (exampleDependency ''Function'' ''>=1.0.0,<2.0.0'') \<noteq> ConfigurationPackageType"
    "Type (exampleDependency ''Function'' ''>=1.0.0,<2.0.0'') \<noteq> ProviderPackageType"
    by (simp_all add: example_defs3)
  have d: "Return (requeueAfter shortWait) None \<noteq> Return emptyResult None"
    by (simp add: requeueAfter_def emptyResult_def shortWait_def Second_def)
  have l: "(errInvalidPackageType, []) \<notin>
      set (debugLines (fst (Reconcile invalidKindFetchFailureEnv ''lock'')))"
    unfolding run
    by (simp add: graphPrefix_def errInvalidPackageType_def errFetchTags_def)
  show ?thesis using invalid_kind_fetch_failure_reach k run d l by blast
qed

section \<open>An image reference that does not parse\<close>

text \<open>
  Claim C10, as the code has it. Claimed: for every first implied dependency whose package
  string does not parse as an image reference the pass logs that failure. The reference is
  parsed on line 230, after the constraint. So: for such a dependency the pass returns the
  empty result and a nil error, the tag fetcher is not called and no package is created;
  after its opening line the pass logs one failure, which is the reference's, under the
  message of an invalid dependency, when the constraint parses, and the constraint's when
  it does not.
\<close>

theorem unparseable_reference:
  assumes reach: "reachesImplied env req lock (DependencyNode d # rest)"
      and bad: "ParseReference env (Package d) = Inl err"
  shows "snd (Reconcile env req) = Return emptyResult None \<and>
         fetches (fst (Reconcile env req)) = [] \<and>
         creations (fst (Reconcile env req)) = [] \<and>
         debugLines (fst (Reconcile env req)) =
           [(''Reconciling'', []),
            (case NewConstraint env (Constraints d) of
               Inl cerr \<Rightarrow> (errInvalidConstraint, [Key ''error'', Value cerr])
             | Inr c \<Rightarrow> (errInvalidDependency, [Key ''error'', Value err]))]"
  unfolding Reconcile_reaches[OF reach]
  by (auto simp: reconcileDependency_def bad graphPrefix_def split: sum.splits)

theorem unparseable_reference_example:
  "reachesImplied noReferenceEnv ''lock'' noReferenceLock
     [DependencyNode noReferenceDependency] \<and>
   ParseReference noReferenceEnv (Package noReferenceDependency) =
     Inl (Failure ''could not parse reference'') \<and>
   snd (Reconcile noReferenceEnv ''lock'') = Return emptyResult None \<and>
   fetches (fst (Reconcile noReferenceEnv ''lock'')) = [] \<and>
   creations (fst (Reconcile noReferenceEnv ''lock'')) = [] \<and>
   debugLines (fst (Reconcile noReferenceEnv ''lock'')) =
     [(''Reconciling'', []),
      (errInvalidDependency, [Key ''error'', Value (Failure ''could not parse reference'')])]"
proof -
  have bad: "ParseReference noReferenceEnv (Package noReferenceDependency) =
      Inl (Failure ''could not parse reference'')"
    by (simp add: example_defs3)
  have con: "NewConstraint noReferenceEnv (Constraints noReferenceDependency) =
      Inr [(OpGE, Version 1 0 0 ''1.0.0'')]"
    by (simp add: example_defs3 semver_defs)
  show ?thesis
    using unparseable_reference[OF no_reference_reach bad] no_reference_reach bad con
    by simp
qed

text \<open>
  Neither the constraint nor the package string parses: the pass returns on line 228 and
  the only failure it logs is the constraint's.
\<close>

theorem unparseable_reference_counterexample:
  "reachesImplied unparseableEnv ''lock'' unparseableLock
     [DependencyNode unparseableDependency] \<and>
   ParseReference unparseableEnv (Package unparseableDependency) =
     Inl (Failure ''could not parse reference'') \<and>
   debugLines (fst (Reconcile unparseableEnv ''lock'')) =
     [(''Reconciling'', []),
      (errInvalidConstraint, [Key ''error'', Value (Failure ''improper constraint'')])] \<and>
   errInvalidDependency \<notin> fst ` set (debugLines (fst (Reconcile unparseableEnv ''lock'')))"
proof -
  have bad: "ParseReference unparseableEnv (Package unparseableDependency) =
      Inl (Failure ''could not parse reference'')"
    by (simp add: example_defs3)
  have run: "Reconcile unparseableEnv ''lock'' =
      (graphPrefix ''lock'' unparseableLock @
         [Debug errInvalidConstraint [Key ''error'', Value (Failure ''improper constraint'')]],
       Return emptyResult None)"
    by (simp add: example_defs3 pass_defs semver_defs)
  have l: "debugLines (fst (Reconcile unparseableEnv ''lock'')) =
     [(''Reconciling'', []),
      (errInvalidConstraint, [Key ''error'', Value (Failure ''improper constraint'')])]"
    unfolding run by (simp add: graphPrefix_def)
  have n: "errInvalidDependency \<notin> fst ` set (debugLines (fst (Reconcile unparseableEnv ''lock'')))"
    unfolding l by (simp add: errInvalidDependency_def errInvalidConstraint_def)
  show ?thesis using unparseable_reach bad l n by blast
qed

end
